theory Spec2Isabelle
  imports Complex_Main "HOL-Library.Word" "HOL-Library.Sublist" "HOL-Library.Log_Nat"
begin

section \<open>Strings and numbers of the JavaScript runtime\<close>

text \<open>
  JavaScript strings are modelled as \<open>string\<close>, byte buffers (Node's \<open>Buffer\<close>, the
  content of a browser \<open>File\<close>) as lists of 8-bit words.  The identifiers and sizes of
  the program are integer-valued JavaScript numbers far below \<open>2^53\<close>, where number
  arithmetic is exact; they are modelled as \<open>int\<close> and \<open>nat\<close>.
\<close>

type_synonym buffer = "8 word list"

text \<open>
  The user-visible texts of the source are Chinese string literals.  Each one is a
  named constant here whose value is an English gloss in square brackets; the code
  only concatenates them and tests the result for emptiness.
\<close>

definition zh_missing_file_or_format :: string where
  "zh_missing_file_or_format = ''[missing file or target format]''"

definition zh_convert_failed :: string where
  "zh_convert_failed = ''[conversion failed]''"

definition zh_convert_ok :: string where
  "zh_convert_ok = ''[document converted]''"

definition zh_compress_failed :: string where
  "zh_compress_failed = ''[compression failed]''"

text \<open>\<open>String(n)\<close> for an integer-valued number of magnitude below \<open>10^21\<close>: decimal digits.\<close>

fun digits :: "nat \<Rightarrow> string" where
  "digits n = (if n < 10 then [char_of (48 + n)] else digits (n div 10) @ [char_of (48 + n mod 10)])"

definition String_of :: "int \<Rightarrow> string" where
  "String_of i = (if i < 0 then ''-'' @ digits (nat (- i)) else digits (nat i))"

text \<open>
  \<open>s.split(sep)\<close> for a non-empty separator: the pieces of \<open>s\<close> between the
  occurrences of \<open>sep\<close>, found from left to right.  \<open>cur\<close> holds the piece being read,
  reversed.  With the empty separator JavaScript splits into single characters.
\<close>

function split_from :: "string \<Rightarrow> string \<Rightarrow> string \<Rightarrow> string list" where
  "split_from sep cur [] = [rev cur]"
| "split_from sep cur (c # cs) =
     (if sep \<noteq> [] \<and> take (length sep) (c # cs) = sep
      then rev cur # split_from sep [] (drop (length sep) (c # cs))
      else split_from sep (c # cur) cs)"
  by pat_completeness auto
termination
  by (relation "measure (\<lambda>(sep, cur, s). length s)") auto

definition split :: "string \<Rightarrow> string \<Rightarrow> string list" where
  "split s sep = (if sep = [] then map (\<lambda>c. [c]) s else split_from sep [] s)"

text \<open>\<open>`${xs.pop()}`\<close>: the last element, or the text \<open>undefined\<close> for an empty array.\<close>

definition pop_text :: "string list \<Rightarrow> string" where
  "pop_text xs = (if xs = [] then ''undefined'' else last xs)"

text \<open>\<open>s.startsWith(p)\<close>.\<close>

definition startsWith :: "string \<Rightarrow> string \<Rightarrow> bool" where
  "startsWith s p = (take (length p) s = p)"

section \<open>The file list of the tools panel (ToolsApp.tsx)\<close>

text \<open>The browser's \<open>File\<close> object: its name, size, MIME type and content.\<close>

record File =
  file_name :: string
  file_size :: nat
  file_type :: string
  file_bytes :: buffer

text \<open>\<open>interface FileItem\<close>; the fields carry the prefix \<open>f_\<close>.\<close>

record FileItem =
  f_id :: int
  f_name :: string
  f_size :: nat
  f_type :: string
  f_file :: File
  f_status :: string

text \<open>
  The component's state: the six \<open>useState\<close> cells, and the downloads the component
  has triggered so far (file name and content of each clicked link), which is
  the only effect it has outside its state.
\<close>

record ui_state =
  activeTab :: string
  files :: "FileItem list"
  selectedFiles :: "int list"
  loading :: bool
  message :: string
  quality :: nat
  downloads :: "(string \<times> buffer) list"

text \<open>
  \<open>handleFileUpload\<close>.  \<open>Date_now i\<close> is what the call of \<open>Date.now()\<close> made for the
  element at index \<open>i\<close> returns; the argument is \<open>None\<close> for \<open>null\<close>.
\<close>

definition handleFileUpload :: "(nat \<Rightarrow> int) \<Rightarrow> File list option \<Rightarrow> ui_state \<Rightarrow> ui_state" where
  "handleFileUpload Date_now uploadedFiles st =
     (case uploadedFiles of
        None \<Rightarrow> st
      | Some fs \<Rightarrow>
          (let newFiles =
             map (\<lambda>(file, index).
                    \<lparr>f_id = Date_now index + int index,
                     f_name = file_name file,
                     f_size = file_size file,
                     f_type = file_type file,
                     f_file = file,
                     f_status = ''ready''\<rparr>)
                 (zip fs [0 ..< length fs])
           in st\<lparr>files := files st @ newFiles\<rparr>))"

text \<open>
  The texts of \<open>handleFileOperation\<close>; \<open>n\<close> is \<open>fileIds.length\<close>.
\<close>

definition zh_renamed :: "nat \<Rightarrow> string" where
  "zh_renamed n = ''[renamed '' @ digits n @ '' files]''"

definition zh_deleted :: "nat \<Rightarrow> string" where
  "zh_deleted n = ''[deleted '' @ digits n @ '' files]''"

definition zh_copied :: "nat \<Rightarrow> string" where
  "zh_copied n = ''[copied '' @ digits n @ '' files to the clipboard]''"

definition zh_moved :: "nat \<Rightarrow> string \<Rightarrow> string" where
  "zh_moved n folder = ''[moved '' @ digits n @ '' files to folder '' @ folder @ '']''"

text \<open>
  \<open>handleFileOperation\<close>.  \<open>prompt_answer\<close> is what \<open>prompt(...)\<close> returns (\<open>None\<close> for
  \<open>null\<close>, when the user cancels) and \<open>confirm_answer\<close> what \<open>confirm(...)\<close> returns;
  a call opens at most one of the two dialogs.
\<close>

definition rename_item :: "string \<Rightarrow> FileItem \<Rightarrow> FileItem" where
  "rename_item newName f =
     f\<lparr>f_name := newName @ ''-'' @ String_of (f_id f) @ ''.'' @ pop_text (split (f_name f) ''.'')\<rparr>"

definition handleFileOperation ::
  "string option \<Rightarrow> bool \<Rightarrow> string \<Rightarrow> int list \<Rightarrow> ui_state \<Rightarrow> ui_state" where
  "handleFileOperation prompt_answer confirm_answer operation fileIds st =
     (let st' =
        (if operation = ''rename'' then
           (case prompt_answer of
              None \<Rightarrow> st
            | Some newName \<Rightarrow>
                if newName \<noteq> [] then
                  st\<lparr>files := map (\<lambda>f. if f_id f \<in> set fileIds then rename_item newName f else f)
                                   (files st),
                     message := zh_renamed (length fileIds)\<rparr>
                else st)
         else if operation = ''delete'' then
           (if confirm_answer then
              st\<lparr>files := filter (\<lambda>f. f_id f \<notin> set fileIds) (files st),
                 selectedFiles := [],
                 message := zh_deleted (length fileIds)\<rparr>
            else st)
         else if operation = ''copy'' then
           st\<lparr>message := zh_copied (length fileIds)\<rparr>
         else if operation = ''move'' then
           (case prompt_answer of
              None \<Rightarrow> st
            | Some folder \<Rightarrow>
                if folder \<noteq> [] then st\<lparr>message := zh_moved (length fileIds) folder\<rparr> else st)
         else st)
      in st'\<lparr>selectedFiles := []\<rparr>)"

section \<open>Document conversion request (ToolsApp.tsx)\<close>

text \<open>A thrown JavaScript error; the text is its \<open>message\<close> property.\<close>

datatype js_error = Js_error string

fun error_message :: "js_error \<Rightarrow> string" where
  "error_message (Js_error m) = m"

text \<open>
  What \<open>fetch\<close> does with the request: the promise rejects, or a response arrives
  with its \<open>ok\<close> flag and the outcome of reading it with \<open>response.blob()\<close>.
\<close>

datatype fetch_result = Fetch_rejects js_error | Responds bool "js_error + buffer"

text \<open>The body of the \<open>try\<close> block of \<open>convertDocument\<close>; \<open>Inl\<close> is a thrown error.\<close>

definition convertDocument_try ::
  "(File \<Rightarrow> string \<Rightarrow> fetch_result) \<Rightarrow> FileItem \<Rightarrow> string \<Rightarrow> ui_state \<Rightarrow> js_error + ui_state" where
  "convertDocument_try fetch file targetFormat st =
     (case fetch (f_file file) targetFormat of
        Fetch_rejects e \<Rightarrow> Inl e
      | Responds ok blob_result \<Rightarrow>
          if ok then
            (case blob_result of
               Inl e \<Rightarrow> Inl e
             | Inr blob \<Rightarrow>
                 Inr (st\<lparr>downloads := downloads st @
                            [(''converted-'' @
                                (case split (f_name file) ''.'' of [] \<Rightarrow> ''undefined'' | x # _ \<Rightarrow> x) @
                                ''.'' @ targetFormat, blob)],
                         message := zh_convert_ok\<rparr>))
          else Inl (Js_error zh_convert_failed))"

text \<open>
  \<open>try { body } catch (error) { handler }\<close>: the result of the body, or of the handler
  on the error the body throws.  \<open>Inl\<close> is an error that leaves the statement.
\<close>

definition try_catch :: "js_error + 'a \<Rightarrow> (js_error \<Rightarrow> js_error + 'a) \<Rightarrow> js_error + 'a" where
  "try_catch body handler = (case body of Inl error \<Rightarrow> handler error | Inr x \<Rightarrow> Inr x)"

text \<open>\<open>convertDocument\<close>; \<open>Inl\<close> is an error that escapes the function.\<close>

definition convertDocument ::
  "(File \<Rightarrow> string \<Rightarrow> fetch_result) \<Rightarrow> FileItem \<Rightarrow> string \<Rightarrow> ui_state \<Rightarrow> js_error + ui_state" where
  "convertDocument fetch file targetFormat st =
     (let st1 = st\<lparr>loading := True, message := []\<rparr> in
      case try_catch (convertDocument_try fetch file targetFormat st1)
             (\<lambda>error. Inr (st1\<lparr>message := zh_convert_failed @ '': '' @ error_message error\<rparr>)) of
        Inl e \<Rightarrow> Inl e
      | Inr st2 \<Rightarrow> Inr (st2\<lparr>loading := False\<rparr>))"

section \<open>Image compression (ToolsApp.tsx)\<close>

subsection \<open>The resize computation of the \<open>onload\<close> callback\<close>

text \<open>
  JavaScript numbers are IEEE 754 doubles.  A finite double is a rational number; the
  result of an arithmetic operation is the exact result rounded to the nearest number
  with a 53-bit significand, ties to even.  \<open>fl\<close> is that rounding, with an unbounded
  exponent: it agrees with the double rounding for magnitudes between \<open>2^-1022\<close> and
  \<open>2^1024\<close>, which the values of this computation (quotients and products of \<open>1920\<close>
  and 32-bit image dimensions) stay within.
\<close>

definition round_half_even :: "rat \<Rightarrow> int" where
  "round_half_even y =
     (let f = \<lfloor>y\<rfloor>; d = y - of_int f
      in if d < 1 / 2 then f else if 1 / 2 < d then f + 1 else if even f then f else f + 1)"

text \<open>For \<open>x > 0\<close>: the integer \<open>l\<close> with \<open>2^l \<le> x < 2^(l+1)\<close>.\<close>

definition ilog2 :: "rat \<Rightarrow> int" where
  "ilog2 x =
     (let (p, q) = quotient_of x; k = bitlen p - bitlen q
      in if power_int 2 k \<le> x then k else k - 1)"

definition fl :: "rat \<Rightarrow> rat" where
  "fl x =
     (if x = 0 then 0
      else let a = \<bar>x\<bar>; e = ilog2 a - 52;
               m = of_int (round_half_even (a / power_int 2 e)) * power_int 2 e
           in if x < 0 then - m else m)"

text \<open>
  The numbers of the resize computation: a finite double or \<open>+Infinity\<close> (from the
  division by a zero dimension).
\<close>

datatype number = Fin rat | PosInf

definition num_div :: "rat \<Rightarrow> rat \<Rightarrow> number" where
  \<comment> \<open>\<open>a / b\<close> for \<open>a > 0\<close> and \<open>b \<ge> 0\<close>\<close>
  "num_div a b = (if b = 0 then PosInf else Fin (fl (a / b)))"

fun Math_min :: "number \<Rightarrow> number \<Rightarrow> number" where
  "Math_min (Fin a) (Fin b) = Fin (min a b)"
| "Math_min (Fin a) PosInf = Fin a"
| "Math_min PosInf (Fin b) = Fin b"
| "Math_min PosInf PosInf = PosInf"

text \<open>
  Assigning a number to \<open>canvas.width\<close> or \<open>canvas.height\<close> converts it to an
  \<open>unsigned long\<close>: truncated, modulo \<open>2^32\<close> (the values here are not negative).
\<close>

definition to_unsigned_long :: "rat \<Rightarrow> nat" where
  "to_unsigned_long v = nat (\<lfloor>v\<rfloor> mod 2 ^ 32)"

text \<open>
  The size computation written in the \<open>img.onload\<close> callback (lines 93 to 103): from
  \<open>img.width\<close> and \<open>img.height\<close> to the size given to the canvas.  A product with an
  infinite ratio is infinite or NaN, which the canvas takes as \<open>0\<close>.  The loop below
  never gets as far as installing this callback.
\<close>

definition canvas_size :: "nat \<Rightarrow> nat \<Rightarrow> nat \<times> nat" where
  "canvas_size width height =
     (let maxSize = 1920 in
      if width > maxSize \<or> height > maxSize then
        (case Math_min (num_div (of_nat maxSize) (of_nat width))
                       (num_div (of_nat maxSize) (of_nat height)) of
           Fin ratio \<Rightarrow>
             (to_unsigned_long (fl (of_nat width * ratio)),
              to_unsigned_long (fl (of_nat height * ratio)))
         | PosInf \<Rightarrow> (0, 0))
      else (width, height))"

subsection \<open>The compression loop\<close>

text \<open>
  \<open>new Image()\<close> at line 88.  Line 2 of the module imports \<open>Image\<close> from
  \<open>lucide-react\<close>, and the import shadows the DOM constructor of that name.  The
  imported value is an icon component, an object made by \<open>React.forwardRef\<close>, so
  applying \<open>new\<close> to it throws a TypeError.
\<close>

definition new_Image :: js_error where
  "new_Image = Js_error ''Image is not a constructor''"

text \<open>
  How the loop ends, with \<open>totalOriginalSize\<close> and \<open>totalCompressedSize\<close> at that
  point: it runs to its end, or an error is thrown out of it.
\<close>

datatype loop_result = Completes nat nat | Raises js_error nat nat

text \<open>
  The \<open>for\<close> loop of \<open>compressImages\<close>; \<open>img\<close> is the loop variable \<open>image\<close>.  An entry
  whose type does not start with \<open>image/\<close> is skipped.  For any other entry the loop
  adds its size to \<open>totalOriginalSize\<close>, creates a canvas and evaluates
  \<open>new Image()\<close>, which throws; the rest of the body (the promise, the callback, the
  encoding and the download) is never run.
\<close>

fun compress_loop :: "FileItem list \<Rightarrow> nat \<Rightarrow> nat \<Rightarrow> loop_result" where
  "compress_loop [] totalOriginalSize totalCompressedSize =
     Completes totalOriginalSize totalCompressedSize"
| "compress_loop (img # images) totalOriginalSize totalCompressedSize =
     (if \<not> startsWith (f_type img) ''image/''
      then compress_loop images totalOriginalSize totalCompressedSize
      else Raises new_Image (totalOriginalSize + f_size img) totalCompressedSize)"

text \<open>
  The text shown after the loop.  The source renders the saved bytes with
  \<open>formatFileSize\<close> and the percentage with \<open>toFixed\<close>; the gloss carries the two
  numbers they are computed from.
\<close>

definition zh_compress_done :: "int \<Rightarrow> nat \<Rightarrow> string" where
  "zh_compress_done savedBytes totalOriginalSize =
     ''[compression finished, saved '' @ String_of savedBytes @ '' of '' @
     digits totalOriginalSize @ '' bytes]''"

text \<open>The body of the \<open>try\<close> block of \<open>compressImages\<close>; \<open>Inl\<close> is a thrown error.\<close>

definition compressImages_try :: "FileItem list \<Rightarrow> ui_state \<Rightarrow> js_error + ui_state" where
  "compressImages_try images st =
     (case compress_loop images 0 0 of
        Raises error totalOriginalSize totalCompressedSize \<Rightarrow> Inl error
      | Completes totalOriginalSize totalCompressedSize \<Rightarrow>
          Inr (st\<lparr>message := zh_compress_done (int totalOriginalSize - int totalCompressedSize)
                               totalOriginalSize\<rparr>))"

text \<open>\<open>compressImages\<close>; \<open>Inl\<close> is an error that escapes the function.\<close>

definition compressImages :: "FileItem list \<Rightarrow> ui_state \<Rightarrow> js_error + ui_state" where
  "compressImages images st =
     (let st1 = st\<lparr>loading := True, message := []\<rparr> in
      case try_catch (compressImages_try images st1)
             (\<lambda>error. Inr (st1\<lparr>message := zh_compress_failed @ '': '' @ error_message error\<rparr>)) of
        Inl e \<Rightarrow> Inl e
      | Inr st2 \<Rightarrow> Inr (st2\<lparr>loading := False\<rparr>))"

section \<open>The conversion endpoint (netlify/functions/convert.js)\<close>

text \<open>\<open>buf.toString('base64')\<close>: standard base64 with padding.\<close>

definition b64_char :: "nat \<Rightarrow> char" where
  "b64_char n =
     (if n < 26 then char_of (65 + n)
      else if n < 52 then char_of (71 + n)
      else if n < 62 then char_of (n - 4)
      else if n = 62 then CHR ''+'' else CHR ''/'')"

fun toString_base64 :: "buffer \<Rightarrow> string" where
  "toString_base64 [] = []"
| "toString_base64 [a] =
     (let n = unat a
      in [b64_char (n div 4), b64_char (n mod 4 * 16), CHR ''='', CHR ''=''])"
| "toString_base64 [a, b] =
     (let n = unat a * 256 + unat b
      in [b64_char (n div 1024), b64_char (n div 16 mod 64), b64_char (n mod 16 * 4), CHR ''=''])"
| "toString_base64 (a # b # c # rest) =
     (let n = unat a * 65536 + unat b * 256 + unat c
      in [b64_char (n div 262144), b64_char (n div 4096 mod 64), b64_char (n div 64 mod 64),
          b64_char (n mod 64)] @ toString_base64 rest)"

text \<open>
  What the platform does with a response body flagged \<open>isBase64Encoded\<close>: it decodes
  the base64 text back to bytes (\<open>None\<close> for text that is not base64).
\<close>

definition b64_index :: "char \<Rightarrow> nat option" where
  "b64_index c =
     (let k = of_char c :: nat
      in if 65 \<le> k \<and> k \<le> 90 then Some (k - 65)
         else if 97 \<le> k \<and> k \<le> 122 then Some (k - 71)
         else if 48 \<le> k \<and> k \<le> 57 then Some (k + 4)
         else if k = 43 then Some 62
         else if k = 47 then Some 63
         else None)"

fun base64_decode :: "string \<Rightarrow> buffer option" where
  "base64_decode [] = Some []"
| "base64_decode (c1 # c2 # c3 # c4 # rest) =
     (case (b64_index c1, b64_index c2) of
        (Some s1, Some s2) \<Rightarrow>
          if c4 = CHR ''='' then
            (if rest \<noteq> [] then None
             else if c3 = CHR ''='' then Some [of_nat ((s1 * 64 + s2) div 16)]
             else (case b64_index c3 of
                     None \<Rightarrow> None
                   | Some s3 \<Rightarrow>
                       (let n = (s1 * 4096 + s2 * 64 + s3) div 4
                        in Some [of_nat (n div 256), of_nat (n mod 256)])))
          else
            (case (b64_index c3, b64_index c4, base64_decode rest) of
               (Some s3, Some s4, Some bs) \<Rightarrow>
                 (let n = s1 * 262144 + s2 * 4096 + s3 * 64 + s4
                  in Some (of_nat (n div 65536) # of_nat (n div 256 mod 256) # of_nat (n mod 256) # bs))
             | _ \<Rightarrow> None)
      | _ \<Rightarrow> None)"
| "base64_decode _ = None"

text \<open>One part of the parsed multipart body, as the library \<open>parse-multipart-data\<close> returns it.\<close>

record part =
  part_name :: "string option"
  part_filename :: "string option"
  part_data :: buffer

text \<open>The request: \<open>event.httpMethod\<close>, \<open>event.headers\<close>, \<open>event.body\<close> (\<open>None\<close> for \<open>null\<close>).\<close>

record event =
  httpMethod :: string
  headers :: "string \<rightharpoonup> string"
  body :: "string option"

text \<open>
  The response.  An error body is \<open>JSON.stringify({ error: s })\<close>, kept as the text
  \<open>s\<close>; the object literals of the error responses have no \<open>headers\<close> and no
  \<open>isBase64Encoded\<close> (empty and false here).
\<close>

datatype response_body = JSON_error string | Text string

record response =
  statusCode :: nat
  response_headers :: "(string \<times> string) list"
  response_body :: response_body
  isBase64Encoded :: bool

definition error_response :: "nat \<Rightarrow> string \<Rightarrow> response" where
  "error_response code s =
     \<lparr>statusCode = code, response_headers = [], response_body = JSON_error s,
      isBase64Encoded = False\<rparr>"

text \<open>\<open>xs[1]\<close>: \<open>None\<close> for \<open>undefined\<close>.\<close>

definition index1 :: "'a list \<Rightarrow> 'a option" where
  "index1 xs = (case xs of _ # x # _ \<Rightarrow> Some x | _ \<Rightarrow> None)"

text \<open>
  The \<open>try\<close> block of the handler; \<open>Inl\<close> is a thrown error.  The runtime is given by
  \<open>now\<close>, what \<open>Date.now()\<close> returns; \<open>multipart_parse\<close>, the library call
  \<open>multipart.parse(Buffer.from(body, 'base64'), boundary)\<close> on the body text and the
  boundary (\<open>None\<close> for \<open>undefined\<close>), which may throw; and \<open>utf8\<close>, the decoding
  \<open>data.toString()\<close> of a buffer.  Reading a property of \<open>undefined\<close> and
  \<open>Buffer.from(null, ...)\<close> throw a TypeError, whose message is the engine's.
\<close>

definition handler_try ::
  "int \<Rightarrow> (string \<Rightarrow> string option \<Rightarrow> js_error + part list) \<Rightarrow> (buffer \<Rightarrow> string) \<Rightarrow> event
     \<Rightarrow> js_error + response" where
  "handler_try now multipart_parse utf8 event =
     (case headers event ''content-type'' of
        None \<Rightarrow> Inl (Js_error ''Cannot read properties of undefined (reading split)'')
      | Some content_type \<Rightarrow>
          (let boundary = index1 (split content_type ''boundary='') in
           case body event of
             None \<Rightarrow> Inl (Js_error ''The first argument must be of type string. Received null'')
           | Some b \<Rightarrow>
               (case multipart_parse b boundary of
                  Inl e \<Rightarrow> Inl e
                | Inr parts \<Rightarrow>
                    (let file = find (\<lambda>part. part_name part = Some ''file'') parts;
                         targetFormat =
                           map_option (\<lambda>part. utf8 (part_data part))
                             (find (\<lambda>part. part_name part = Some ''targetFormat'') parts)
                     in case (file, targetFormat) of
                          (Some file, Some targetFormat) \<Rightarrow>
                            if targetFormat = [] then
                              Inr (error_response 400 zh_missing_file_or_format)
                            else
                              (let fileName = ''converted-'' @ String_of now @ ''.'' @ targetFormat
                               in Inr \<lparr>statusCode = 200,
                                       response_headers =
                                         [(''Content-Type'', ''application/octet-stream''),
                                          (''Content-Disposition'',
                                           ''attachment; filename='' @ [CHR 0x22] @ fileName @ [CHR 0x22])],
                                       response_body = Text (toString_base64 (part_data file)),
                                       isBase64Encoded = True\<rparr>)
                        | _ \<Rightarrow> Inr (error_response 400 zh_missing_file_or_format)))))"

definition handler ::
  "int \<Rightarrow> (string \<Rightarrow> string option \<Rightarrow> js_error + part list) \<Rightarrow> (buffer \<Rightarrow> string) \<Rightarrow> event
     \<Rightarrow> response" where
  "handler now multipart_parse utf8 event =
     (if httpMethod event \<noteq> ''POST'' then error_response 405 ''Method not allowed''
      else
        (case handler_try now multipart_parse utf8 event of
           Inr r \<Rightarrow> r
         | Inl error \<Rightarrow> error_response 500 (zh_convert_failed @ '': '' @ error_message error)))"

section \<open>Initial state and example data\<close>

text \<open>The initial values of the \<open>useState\<close> cells.\<close>

definition initial_state :: ui_state where
  "initial_state =
     \<lparr>activeTab = ''convert'', files = [], selectedFiles = [], loading = False,
      message = [], quality = 80, downloads = []\<rparr>"

text \<open>A file with a given name, MIME type and content, and a record for it.\<close>

definition example_file :: "string \<Rightarrow> string \<Rightarrow> buffer \<Rightarrow> File" where
  "example_file n t bs = \<lparr>file_name = n, file_size = length bs, file_type = t, file_bytes = bs\<rparr>"

definition example_item :: "int \<Rightarrow> string \<Rightarrow> string \<Rightarrow> buffer \<Rightarrow> FileItem" where
  "example_item i n t bs =
     \<lparr>f_id = i, f_name = n, f_size = length bs, f_type = t, f_file = example_file n t bs,
      f_status = ''ready''\<rparr>"

text \<open>
  A request and a multipart library for it: the body parses into the given parts when
  the boundary read from the content type is the one of the body.  \<open>ascii\<close> decodes
  a buffer of ASCII bytes, as \<open>toString()\<close> does.
\<close>

definition ascii :: "buffer \<Rightarrow> string" where
  "ascii bs = map (\<lambda>w. char_of (unat w)) bs"

definition example_event :: event where
  "example_event =
     \<lparr>httpMethod = ''POST'',
      headers = [''content-type'' \<mapsto> ''multipart/form-data; boundary=XyZ''],
      body = Some ''LS1YeVo=''\<rparr>"

definition example_parse :: "part list \<Rightarrow> string \<Rightarrow> string option \<Rightarrow> js_error + part list" where
  "example_parse parts b boundary =
     (if boundary = Some ''XyZ'' then Inr parts
      else Inl (Js_error ''Multipart: boundary not found''))"

definition file_part :: part where
  "file_part = \<lparr>part_name = Some ''file'', part_filename = Some ''a.txt'', part_data = [104, 105]\<rparr>"

definition format_part :: "buffer \<Rightarrow> part" where
  "format_part bs = \<lparr>part_name = Some ''targetFormat'', part_filename = None, part_data = bs\<rparr>"

section \<open>Properties of the file list\<close>

subsection \<open>Splitting a name at its dots\<close>




subsection \<open>Upload\<close>

lemma map_zip_upt_fst: "map (\<lambda>p. g (fst p)) (zip xs [0 ..< length xs]) = map g xs"
proof -
  have "map (\<lambda>p. g (fst p)) (zip xs [0 ..< length xs]) =
        map g (map fst (zip xs [0 ..< length xs]))"
    by (simp only: map_map comp_def)
  also have "\<dots> = map g xs"
    by (simp add: map_fst_zip)
  finally show ?thesis .
qed

text \<open>
  Claim C6.  Uploading a non-null list of \<open>N\<close> files appends exactly \<open>N\<close> records to
  the file list, in upload order: the records that were there are the first part of
  the new list, unchanged, and the records after them carry, one for each uploaded
  file and in the same order, that file as payload, its name, its size, its MIME type
  and the status \<open>ready\<close>.
\<close>

theorem upload_appends_records:
  "take (length (files st)) (files (handleFileUpload Date_now (Some fs) st)) = files st \<and>
   length (files (handleFileUpload Date_now (Some fs) st)) = length (files st) + length fs \<and>
   map f_file (drop (length (files st)) (files (handleFileUpload Date_now (Some fs) st))) = fs \<and>
   map f_name (drop (length (files st)) (files (handleFileUpload Date_now (Some fs) st))) =
     map file_name fs \<and>
   map f_size (drop (length (files st)) (files (handleFileUpload Date_now (Some fs) st))) =
     map file_size fs \<and>
   map f_type (drop (length (files st)) (files (handleFileUpload Date_now (Some fs) st))) =
     map file_type fs \<and>
   map f_status (drop (length (files st)) (files (handleFileUpload Date_now (Some fs) st))) =
     replicate (length fs) ''ready''"
  by (simp add: handleFileUpload_def Let_def comp_def case_prod_unfold map_zip_upt_fst
      map_replicate_const)

text \<open>
  The identifiers after an upload, and when they stay distinct: the clock does not go
  back during the upload and its first reading is above every identifier in the list.
\<close>

lemma upload_ids:
  "map f_id (files (handleFileUpload Date_now (Some fs) st)) =
     map f_id (files st) @ map (\<lambda>i. Date_now i + int i) [0 ..< length fs]"
proof -
  have "map (\<lambda>p. Date_now (snd p) + int (snd p)) (zip fs [0 ..< length fs]) =
        map (\<lambda>i. Date_now i + int i) (map snd (zip fs [0 ..< length fs]))"
    by (simp only: map_map comp_def)
  also have "\<dots> = map (\<lambda>i. Date_now i + int i) [0 ..< length fs]"
    by (simp add: map_snd_zip)
  finally show ?thesis
    by (simp add: handleFileUpload_def Let_def comp_def case_prod_unfold)
qed

lemma handleFileUpload_keeps_ids_distinct:
  assumes d: "distinct (map f_id (files st))"
    and mono: "\<And>i j. i \<le> j \<Longrightarrow> Date_now i \<le> Date_now j"
    and fresh: "\<And>f. f \<in> set (files st) \<Longrightarrow> f_id f < Date_now 0"
  shows "distinct (map f_id (files (handleFileUpload Date_now (Some fs) st)))"
proof -
  have inj: "inj_on (\<lambda>i. Date_now i + int i) (set [0 ..< length fs])"
  proof (rule inj_onI)
    fix i j
    assume eq: "Date_now i + int i = Date_now j + int j"
    show "i = j"
    proof (rule ccontr)
      assume "i \<noteq> j"
      then consider "i < j" | "j < i" by linarith
      then show False
      proof cases
        case 1
        with mono[of i j] eq show False by simp
      next
        case 2
        with mono[of j i] eq show False by simp
      qed
    qed
  qed
  have new: "distinct (map (\<lambda>i. Date_now i + int i) [0 ..< length fs])"
    using inj by (simp add: distinct_map)
  have apart: "f_id f \<noteq> Date_now i + int i" if "f \<in> set (files st)" for f i
    using fresh[OF that] mono[of 0 i] by simp
  show ?thesis
    using d new apart by (auto simp: upload_ids)
qed

text \<open>
  Claim C3.  Identifiers are not unique after every sequence of operations: a record's
  identifier is the clock reading plus its index in the batch, so a batch of two files
  uploaded at reading \<open>1000\<close> takes the identifiers \<open>1000\<close> and \<open>1001\<close>, and a file
  uploaded one millisecond later takes \<open>1001\<close> again.
\<close>

theorem upload_duplicate_ids:
  "map f_id (files (handleFileUpload (\<lambda>i. 1001) (Some [example_file ''c.txt'' ''text/plain'' []])
      (handleFileUpload (\<lambda>i. 1000)
         (Some [example_file ''a.txt'' ''text/plain'' [], example_file ''b.txt'' ''text/plain'' []])
         initial_state))) = [1000, 1001, 1001]"
  by (simp add: handleFileUpload_def Let_def initial_state_def upt_rec)

subsection \<open>Rename, delete, copy and move\<close>

text \<open>Rename, delete, copy and move keep distinct identifiers distinct.\<close>

lemma handleFileOperation_keeps_ids_distinct:
  assumes "distinct (map f_id (files st))"
  shows "distinct (map f_id (files (handleFileOperation prompt_answer confirm_answer operation fileIds st)))"
proof -
  have rename: "map f_id (map (\<lambda>f. if f_id f \<in> set fileIds then rename_item newName f else f) fs) =
      map f_id fs" for newName fs
    by (simp add: rename_item_def comp_def)
  show ?thesis
    using assms
    by (auto simp: handleFileOperation_def Let_def rename distinct_map_filter
        simp del: map_map split: option.split)
qed


text \<open>
  Claim C4, as amended.  When the user confirms the dialog, the delete operation
  removes exactly the records whose identifier is selected: the new list is the old
  one without them, so a record is in the new list if and only if it was in the old
  one and its identifier is not selected, and the records that remain keep their
  order.
\<close>

theorem delete_when_confirmed:
  assumes "confirm_answer"
  shows "files (handleFileOperation prompt_answer confirm_answer ''delete'' fileIds st) =
           filter (\<lambda>f. f_id f \<notin> set fileIds) (files st) \<and>
         set (files (handleFileOperation prompt_answer confirm_answer ''delete'' fileIds st)) =
           {f \<in> set (files st). f_id f \<notin> set fileIds} \<and>
         subseq (files (handleFileOperation prompt_answer confirm_answer ''delete'' fileIds st))
           (files st)"
  using assms by (simp add: handleFileOperation_def Let_def)

theorem delete_when_confirmed_witness:
  "map f_id (files (handleFileOperation None True ''delete'' [1, 3]
      (initial_state\<lparr>files := [example_item 1 ''a.txt'' ''text/plain'' [],
                               example_item 2 ''b.txt'' ''text/plain'' [],
                               example_item 3 ''c.txt'' ''text/plain'' []]\<rparr>))) = [2]"
  using delete_when_confirmed [of True None "[1, 3]"
      "initial_state\<lparr>files := [example_item 1 ''a.txt'' ''text/plain'' [],
                               example_item 2 ''b.txt'' ''text/plain'' [],
                               example_item 3 ''c.txt'' ''text/plain'' []]\<rparr>"]
  by (simp add: initial_state_def example_item_def)

text \<open>
  Claim C4 as stated fails when the user cancels the dialog: the record with the
  selected identifier \<open>1\<close> is still in the list.
\<close>

theorem delete_cancelled_counterexample:
  "map f_id (files (handleFileOperation None False ''delete'' [1]
      (initial_state\<lparr>files := [example_item 1 ''a.txt'' ''text/plain'' []]\<rparr>))) = [1]"
  by (simp add: handleFileOperation_def Let_def initial_state_def example_item_def)

text \<open>
  Claim C8.  The copy and the move operation leave the file list as it is, whatever
  the selection and the answer to the prompt: copy sets the message and clears the
  selection and changes nothing else; move leaves the file list, the active tab, the
  loading flag, the quality and the downloads unchanged and clears the selection.
\<close>

theorem copy_move_frame:
  "handleFileOperation prompt_answer confirm_answer ''copy'' fileIds st =
     st\<lparr>message := zh_copied (length fileIds), selectedFiles := []\<rparr> \<and>
   files (handleFileOperation prompt_answer confirm_answer ''move'' fileIds st) = files st \<and>
   activeTab (handleFileOperation prompt_answer confirm_answer ''move'' fileIds st) = activeTab st \<and>
   loading (handleFileOperation prompt_answer confirm_answer ''move'' fileIds st) = loading st \<and>
   quality (handleFileOperation prompt_answer confirm_answer ''move'' fileIds st) = quality st \<and>
   downloads (handleFileOperation prompt_answer confirm_answer ''move'' fileIds st) = downloads st \<and>
   selectedFiles (handleFileOperation prompt_answer confirm_answer ''move'' fileIds st) = []"
  by (simp add: handleFileOperation_def Let_def split: option.split)

section \<open>Properties of the conversion endpoint\<close>

subsection \<open>Base64 text decodes to the bytes it was made from\<close>

lemma of_char_b64_char:
  "n < 64 \<Longrightarrow> (of_char (b64_char n) :: nat) =
     (if n < 26 then 65 + n else if n < 52 then 71 + n else if n < 62 then n - 4
      else if n = 62 then 43 else 47)"
  by (simp add: b64_char_def)

lemma b64_index_char: "n < 64 \<Longrightarrow> b64_index (b64_char n) = Some n"
  unfolding b64_index_def Let_def by (auto simp add: of_char_b64_char)

lemma b64_char_not_pad: "n < 64 \<Longrightarrow> b64_char n \<noteq> CHR ''=''"
proof
  assume n: "n < 64" and eq: "b64_char n = CHR ''=''"
  from eq have "(of_char (b64_char n) :: nat) = of_char (CHR ''='')" by simp
  with n show False by (simp add: of_char_b64_char split: if_splits)
qed

lemma unat_byte: "unat (a :: 8 word) < 256"
  using unsigned_less[of a, where ?'a = nat] by simp

lemma decode_quad:
  assumes "s1 < 64" "s2 < 64" "s3 < 64" "s4 < 64"
  shows "base64_decode (b64_char s1 # b64_char s2 # b64_char s3 # b64_char s4 # rest) =
           (case base64_decode rest of
              None \<Rightarrow> None
            | Some bs \<Rightarrow>
                Some (of_nat ((s1 * 262144 + s2 * 4096 + s3 * 64 + s4) div 65536) #
                      of_nat ((s1 * 262144 + s2 * 4096 + s3 * 64 + s4) div 256 mod 256) #
                      of_nat ((s1 * 262144 + s2 * 4096 + s3 * 64 + s4) mod 256) # bs))"
  using assms
  by (simp add: b64_index_char b64_char_not_pad Let_def split: option.split)

lemma decode_pad1:
  assumes "s1 < 64" "s2 < 64" "s3 < 64"
  shows "base64_decode [b64_char s1, b64_char s2, b64_char s3, CHR ''=''] =
           Some [of_nat ((s1 * 4096 + s2 * 64 + s3) div 4 div 256),
                 of_nat ((s1 * 4096 + s2 * 64 + s3) div 4 mod 256)]"
  using assms
  by (simp add: b64_index_char b64_char_not_pad Let_def)

lemma decode_pad2:
  assumes "s1 < 64" "s2 < 64"
  shows "base64_decode [b64_char s1, b64_char s2, CHR ''='', CHR ''=''] =
           Some [of_nat ((s1 * 64 + s2) div 16)]"
  using assms
  by (simp add: b64_index_char)

lemma sextets3:
  fixes n :: nat
  shows "n div 262144 * 262144 + n div 4096 mod 64 * 4096 + n div 64 mod 64 * 64 + n mod 64 = n"
proof -
  define q1 where "q1 = n div 64"
  define q2 where "q2 = q1 div 64"
  have a: "q1 * 64 + n mod 64 = n" by (simp add: q1_def)
  have b: "q2 * 64 + q1 mod 64 = q1" by (simp add: q2_def)
  have c: "q2 div 64 * 64 + q2 mod 64 = q2" by simp
  have d: "n div 4096 = q2" by (simp add: q2_def q1_def div_mult2_eq)
  have e: "n div 262144 = q2 div 64" by (simp add: q2_def q1_def div_mult2_eq)
  have "q2 div 64 * 262144 + q2 mod 64 * 4096 + q1 mod 64 * 64 + n mod 64 = n"
    using a b c by linarith
  then show ?thesis by (simp only: d e q1_def[symmetric])
qed

lemma sextets2:
  fixes n :: nat
  shows "(n div 1024 * 4096 + n div 16 mod 64 * 64 + n mod 16 * 4) div 4 = n"
proof -
  define q where "q = n div 16"
  have a: "q * 16 + n mod 16 = n" by (simp add: q_def)
  have b: "q div 64 * 64 + q mod 64 = q" by simp
  have c: "n div 1024 = q div 64" by (simp add: q_def div_mult2_eq)
  have "q div 64 * 4096 + q mod 64 * 64 + n mod 16 * 4 = 4 * n"
    using a b by linarith
  then have "(q div 64 * 4096 + q mod 64 * 64 + n mod 16 * 4) div 4 = n"
    by simp
  then show ?thesis by (simp only: c q_def[symmetric])
qed

lemma sextets1:
  fixes n :: nat
  shows "(n div 4 * 64 + n mod 4 * 16) div 16 = n"
proof -
  have a: "n div 4 * 4 + n mod 4 = n" by simp
  have "n div 4 * 64 + n mod 4 * 16 = 16 * n"
    using a by linarith
  then show ?thesis by simp
qed

lemma bytes3:
  fixes a b c :: "8 word"
  shows "(of_nat ((unat a * 65536 + unat b * 256 + unat c) div 65536) :: 8 word) = a"
    and "(of_nat ((unat a * 65536 + unat b * 256 + unat c) div 256 mod 256) :: 8 word) = b"
    and "(of_nat ((unat a * 65536 + unat b * 256 + unat c) mod 256) :: 8 word) = c"
proof -
  have "(unat a * 65536 + unat b * 256 + unat c) div 65536 = unat a"
    using unat_byte[of b] unat_byte[of c] by simp
  then show "(of_nat ((unat a * 65536 + unat b * 256 + unat c) div 65536) :: 8 word) = a"
    by simp
  have "(unat a * 65536 + unat b * 256 + unat c) div 256 = unat a * 256 + unat b"
    using unat_byte[of c] by simp
  then have "(unat a * 65536 + unat b * 256 + unat c) div 256 mod 256 = unat b"
    using unat_byte[of b] by simp
  then show "(of_nat ((unat a * 65536 + unat b * 256 + unat c) div 256 mod 256) :: 8 word) = b"
    by simp
  have "(unat a * 65536 + unat b * 256 + unat c) mod 256 = unat c"
    using unat_byte[of c] by (simp add: mod_add_left_eq[symmetric] flip: mod_add_eq)
  then show "(of_nat ((unat a * 65536 + unat b * 256 + unat c) mod 256) :: 8 word) = c"
    by simp
qed


lemma bytes2:
  fixes a b :: "8 word"
  shows "(of_nat ((unat a * 256 + unat b) div 256) :: 8 word) = a"
    and "(of_nat ((unat a * 256 + unat b) mod 256) :: 8 word) = b"
proof -
  have "(unat a * 256 + unat b) div 256 = unat a"
    using unat_byte[of b] by simp
  then show "(of_nat ((unat a * 256 + unat b) div 256) :: 8 word) = a"
    by simp
  have "(unat a * 256 + unat b) mod 256 = unat b"
    using unat_byte[of b] by simp
  then show "(of_nat ((unat a * 256 + unat b) mod 256) :: 8 word) = b"
    by simp
qed

lemma sextet_bounds:
  fixes a b c :: "8 word"
  shows "unat a div 4 < 64"
    and "(unat a * 256 + unat b) div 1024 < 64"
    and "(unat a * 65536 + unat b * 256 + unat c) div 262144 < 64"
proof -
  show "unat a div 4 < 64"
    using unat_byte[of a] by simp
  have "unat a * 256 + unat b < 65536"
    using unat_byte[of a] unat_byte[of b] by simp
  then show "(unat a * 256 + unat b) div 1024 < 64"
    by (simp add: less_mult_imp_div_less)
  have "unat a * 65536 + unat b * 256 + unat c < 16777216"
    using unat_byte[of a] unat_byte[of b] unat_byte[of c] by simp
  then show "(unat a * 65536 + unat b * 256 + unat c) div 262144 < 64"
    by (simp add: less_mult_imp_div_less)
qed

lemma base64_roundtrip: "base64_decode (toString_base64 bs) = Some bs"
proof (induction bs rule: toString_base64.induct)
  case 1
  show ?case by simp
next
  case (2 a)
  have "base64_decode (toString_base64 [a]) =
        Some [of_nat ((unat a div 4 * 64 + unat a mod 4 * 16) div 16)]"
    by (simp add: Let_def decode_pad2 sextet_bounds del: base64_decode.simps)
  then show ?case by (simp add: sextets1 del: base64_decode.simps toString_base64.simps)
next
  case (3 a b)
  define n where "n = unat a * 256 + unat b"
  have "base64_decode (toString_base64 [a, b]) =
        Some [of_nat ((n div 1024 * 4096 + n div 16 mod 64 * 64 + n mod 16 * 4) div 4 div 256),
              of_nat ((n div 1024 * 4096 + n div 16 mod 64 * 64 + n mod 16 * 4) div 4 mod 256)]"
    by (simp add: Let_def decode_pad1 sextet_bounds n_def del: base64_decode.simps)
  then show ?case by (simp only: sextets2 n_def bytes2)
next
  case (4 a b c rest)
  define n where "n = unat a * 65536 + unat b * 256 + unat c"
  have "base64_decode (toString_base64 (a # b # c # rest)) =
        Some (of_nat ((n div 262144 * 262144 + n div 4096 mod 64 * 4096 + n div 64 mod 64 * 64 + n mod 64) div 65536) #
              of_nat ((n div 262144 * 262144 + n div 4096 mod 64 * 4096 + n div 64 mod 64 * 64 + n mod 64) div 256 mod 256) #
              of_nat ((n div 262144 * 262144 + n div 4096 mod 64 * 4096 + n div 64 mod 64 * 64 + n mod 64) mod 256) # rest)"
    using 4
    by (simp add: Let_def decode_quad sextet_bounds n_def del: base64_decode.simps)
  then show ?case by (simp only: sextets3 n_def bytes3)
qed

subsection \<open>The handler\<close>

text \<open>
  Claim C1, as amended.  For every POST request that carries a content type and a
  body and is parsed into parts among which there are a \<open>file\<close> part and a
  \<open>targetFormat\<close> part whose text is not empty, the handler returns status 200; the
  body is the base64 text of the bytes of the (first) \<open>file\<close> part, flagged as
  base64, and decodes to exactly those bytes; the \<open>Content-Type\<close> header is
  \<open>application/octet-stream\<close>; and the file name of the \<open>Content-Disposition\<close>
  header is \<open>converted-\<close>, the clock reading, a dot and the target format.
\<close>

theorem handler_echoes_file:
  assumes "httpMethod event = ''POST''"
    and "headers event ''content-type'' = Some content_type"
    and "body event = Some b"
    and "multipart_parse b (index1 (split content_type ''boundary='')) = Inr parts"
    and "find (\<lambda>part. part_name part = Some ''file'') parts = Some file"
    and "find (\<lambda>part. part_name part = Some ''targetFormat'') parts = Some target"
    and "utf8 (part_data target) \<noteq> []"
  shows "statusCode (handler now multipart_parse utf8 event) = 200 \<and>
         response_body (handler now multipart_parse utf8 event) = Text (toString_base64 (part_data file)) \<and>
         isBase64Encoded (handler now multipart_parse utf8 event) \<and>
         base64_decode (toString_base64 (part_data file)) = Some (part_data file) \<and>
         map_of (response_headers (handler now multipart_parse utf8 event)) ''Content-Type'' =
           Some ''application/octet-stream'' \<and>
         map_of (response_headers (handler now multipart_parse utf8 event)) ''Content-Disposition'' =
           Some (''attachment; filename='' @ [CHR 0x22] @
                 ''converted-'' @ String_of now @ ''.'' @ utf8 (part_data target) @ [CHR 0x22])"
  using assms by (simp add: handler_def handler_try_def Let_def base64_roundtrip)

lemma example_boundary:
  "index1 (split ''multipart/form-data; boundary=XyZ'' ''boundary='') = Some ''XyZ''"
  by code_simp

theorem handler_echoes_file_witness:
  "statusCode (handler 1700000000000 (example_parse [file_part, format_part [112, 100, 102]]) ascii example_event) = 200 \<and>
   response_body (handler 1700000000000 (example_parse [file_part, format_part [112, 100, 102]]) ascii example_event) =
     Text (toString_base64 (part_data file_part)) \<and>
   isBase64Encoded (handler 1700000000000 (example_parse [file_part, format_part [112, 100, 102]]) ascii example_event) \<and>
   base64_decode (toString_base64 (part_data file_part)) = Some (part_data file_part) \<and>
   map_of (response_headers (handler 1700000000000 (example_parse [file_part, format_part [112, 100, 102]]) ascii example_event))
     ''Content-Type'' = Some ''application/octet-stream'' \<and>
   map_of (response_headers (handler 1700000000000 (example_parse [file_part, format_part [112, 100, 102]]) ascii example_event))
     ''Content-Disposition'' =
     Some (''attachment; filename='' @ [CHR 0x22] @
           ''converted-'' @ String_of 1700000000000 @ ''.'' @ ascii (part_data (format_part [112, 100, 102])) @ [CHR 0x22])"
  by (rule handler_echoes_file [where content_type = "''multipart/form-data; boundary=XyZ''"
        and b = "''LS1YeVo=''" and parts = "[file_part, format_part [112, 100, 102]]"])
     (simp_all add: example_event_def example_parse_def example_boundary file_part_def
        format_part_def ascii_def)

text \<open>
  Claim C1 as stated fails for a request that has both parts when the text of the
  \<open>targetFormat\<close> part is empty: the handler answers 400.
\<close>

theorem handler_empty_format_counterexample:
  "handler 1700000000000 (example_parse [file_part, format_part []]) ascii example_event =
     error_response 400 zh_missing_file_or_format"
  by (simp add: handler_def handler_try_def Let_def example_event_def example_parse_def
      file_part_def format_part_def ascii_def example_boundary error_response_def)

text \<open>
  Claim C2.  For every POST request that is parsed successfully and has no part named
  \<open>file\<close> or no part named \<open>targetFormat\<close>, the handler returns status 400 with a
  JSON error body.
\<close>

theorem handler_rejects_missing_part:
  assumes "httpMethod event = ''POST''"
    and "headers event ''content-type'' = Some content_type"
    and "body event = Some b"
    and "multipart_parse b (index1 (split content_type ''boundary='')) = Inr parts"
    and "(\<forall>part \<in> set parts. part_name part \<noteq> Some ''file'') \<or>
         (\<forall>part \<in> set parts. part_name part \<noteq> Some ''targetFormat'')"
  shows "statusCode (handler now multipart_parse utf8 event) = 400 \<and>
         response_body (handler now multipart_parse utf8 event) = JSON_error zh_missing_file_or_format"
proof -
  from assms(5) have "find (\<lambda>part. part_name part = Some ''file'') parts = None \<or>
      find (\<lambda>part. part_name part = Some ''targetFormat'') parts = None"
    by (auto simp: find_None_iff)
  with assms(1-4) show ?thesis
    by (auto simp add: handler_def handler_try_def Let_def error_response_def split: option.split)
qed

theorem handler_rejects_missing_part_witness:
  "statusCode (handler 1700000000000 (example_parse [file_part]) ascii example_event) = 400 \<and>
   response_body (handler 1700000000000 (example_parse [file_part]) ascii example_event) =
     JSON_error zh_missing_file_or_format"
  by (rule handler_rejects_missing_part [where content_type = "''multipart/form-data; boundary=XyZ''"
        and b = "''LS1YeVo=''" and parts = "[file_part]"])
     (simp_all add: example_event_def example_parse_def example_boundary file_part_def)

section \<open>Properties of the image compression\<close>

subsection \<open>Rounding to a double\<close>

lemma round_half_even_le: "of_int (round_half_even y) \<le> y + 1 / 2"
proof -
  define f where "f = \<lfloor>y\<rfloor>"
  have "of_int f \<le> y" by (simp add: f_def)
  then show ?thesis
    unfolding round_half_even_def Let_def f_def[symmetric] by auto
qed

lemma round_half_even_ge: "y - 1 / 2 \<le> of_int (round_half_even y)"
proof -
  define f where "f = \<lfloor>y\<rfloor>"
  have "y < of_int f + 1" unfolding f_def by linarith
  then show ?thesis
    unfolding round_half_even_def Let_def f_def[symmetric] by auto
qed

lemma ilog2_le:
  assumes "0 < x"
  shows "power_int 2 (ilog2 x) \<le> x"
proof -
  obtain p q where pq: "quotient_of x = (p, q)" by (cases "quotient_of x")
  then have q: "0 < q" by (rule quotient_of_denom_pos)
  have x: "x = of_int p / of_int q" using pq by (rule quotient_of_div)
  with assms q have p: "0 < p" by (simp add: zero_less_divide_iff)
  define k where "k = bitlen p - bitlen q"
  show ?thesis
  proof (cases "power_int 2 k \<le> x")
    case True
    then show ?thesis by (simp add: ilog2_def pq k_def)
  next
    case False
    then have il: "ilog2 x = k - 1" by (simp add: ilog2_def pq k_def)
    have bp: "1 \<le> bitlen p" using p by (simp add: bitlen_alt_def)
    have bq: "0 \<le> bitlen q" by (rule bitlen_nonneg)
    have "2 ^ nat (bitlen p - 1) \<le> p" using bitlen_bounds[OF p] by simp
    then have "(of_int (2 ^ nat (bitlen p - 1)) :: rat) \<le> of_int p" by (simp only: of_int_le_iff)
    then have lo: "power_int 2 (bitlen p - 1) \<le> (of_int p :: rat)"
      using bp by (simp add: power_int_nonneg_exp)
    have "q < 2 ^ nat (bitlen q)" using bitlen_bounds[OF q] by simp
    then have "(of_int q :: rat) < of_int (2 ^ nat (bitlen q))" by (simp only: of_int_less_iff)
    then have hi: "(of_int q :: rat) \<le> power_int 2 (bitlen q)"
      using bq by (simp add: power_int_nonneg_exp)
    have "power_int 2 (k - 1) = (power_int 2 (bitlen p - 1) :: rat) / power_int 2 (bitlen q)"
      unfolding k_def by (simp flip: power_int_diff add: algebra_simps)
    also have "\<dots> \<le> of_int p / power_int 2 (bitlen q)"
      using lo by (simp add: divide_right_mono)
    also have "\<dots> \<le> of_int p / of_int q"
      using hi p q by (simp add: frac_le)
    finally have "power_int 2 (k - 1) \<le> x" by (simp only: x)
    then show ?thesis by (simp only: il)
  qed
qed

lemma fl_bounds:
  assumes "0 < x"
  shows "fl x \<le> x * (1 + 1 / 2 ^ 53)" and "0 < fl x"
proof -
  define e where "e = ilog2 x - 52"
  define y where "y = x / power_int 2 e"
  have pe: "0 < (power_int 2 e :: rat)" by simp
  have fl: "fl x = of_int (round_half_even y) * power_int 2 e"
    using assms by (simp add: fl_def Let_def e_def y_def)
  have "power_int 2 (e + 52) \<le> x"
    using ilog2_le[OF assms] by (simp add: e_def)
  then have "power_int 2 e * 2 ^ 52 \<le> x"
    by (simp add: power_int_add)
  then have y52: "2 ^ 52 \<le> y"
    unfolding y_def using pe by (simp add: pos_le_divide_eq mult.commute)
  have "of_int (round_half_even y) \<le> y + 1 / 2" by (rule round_half_even_le)
  also have "\<dots> \<le> y * (1 + 1 / 2 ^ 53)"
    using y52 by (simp add: algebra_simps)
  finally have "of_int (round_half_even y) * power_int 2 e \<le> y * (1 + 1 / 2 ^ 53) * power_int 2 e"
    using pe by (simp add: mult_right_mono)
  also have "\<dots> = x * (1 + 1 / 2 ^ 53)"
    unfolding y_def by simp
  finally show "fl x \<le> x * (1 + 1 / 2 ^ 53)" by (simp only: fl)
  have "0 < y - 1 / 2" using y52 by simp
  also have "\<dots> \<le> of_int (round_half_even y)" by (rule round_half_even_ge)
  finally show "0 < fl x" using pe by (simp add: fl)
qed

lemma ilog2_gt:
  assumes "0 < x"
  shows "x < power_int 2 (ilog2 x + 1)"
proof -
  obtain p q where pq: "quotient_of x = (p, q)" by (cases "quotient_of x")
  then have q: "0 < q" by (rule quotient_of_denom_pos)
  have x: "x = of_int p / of_int q" using pq by (rule quotient_of_div)
  with assms q have p: "0 < p" by (simp add: zero_less_divide_iff)
  define k where "k = bitlen p - bitlen q"
  have bp: "0 \<le> bitlen p" by (rule bitlen_nonneg)
  have bq: "1 \<le> bitlen q" using q by (simp add: bitlen_alt_def)
  have "p < 2 ^ nat (bitlen p)" using bitlen_bounds[OF p] by simp
  then have "(of_int p :: rat) < of_int (2 ^ nat (bitlen p))" by (simp only: of_int_less_iff)
  then have hi: "(of_int p :: rat) < power_int 2 (bitlen p)"
    using bp by (simp add: power_int_nonneg_exp)
  have "2 ^ nat (bitlen q - 1) \<le> q" using bitlen_bounds[OF q] by simp
  then have "(of_int (2 ^ nat (bitlen q - 1)) :: rat) \<le> of_int q" by (simp only: of_int_le_iff)
  then have lo: "power_int 2 (bitlen q - 1) \<le> (of_int q :: rat)"
    using bq by (simp add: power_int_nonneg_exp)
  have "of_int p / of_int q < (power_int 2 (bitlen p) :: rat) / of_int q"
    using hi q by (simp add: divide_strict_right_mono)
  also have "\<dots> \<le> power_int 2 (bitlen p) / power_int 2 (bitlen q - 1)"
    using lo by (simp add: frac_le)
  also have "\<dots> = power_int 2 (k + 1)"
    unfolding k_def by (simp flip: power_int_diff add: algebra_simps)
  finally have k1: "x < power_int 2 (k + 1)" by (simp only: x)
  show ?thesis
  proof (cases "power_int 2 k \<le> x")
    case True
    then have "ilog2 x = k" by (simp add: ilog2_def pq k_def)
    with k1 show ?thesis by simp
  next
    case False
    then have "ilog2 x = k - 1" by (simp add: ilog2_def pq k_def)
    with False show ?thesis by simp
  qed
qed

text \<open>
  \<open>fl\<close> rounds to a nearest number with a 53-bit significand: the result is an
  integer of 53 bits (or \<open>2^53\<close>) times the power of two that belongs to the binade of
  \<open>x\<close>, and it is at most half a unit in the last place away from \<open>x\<close>.
\<close>

lemma fl_nearest:
  assumes "0 < x"
  shows "\<exists>m. fl x = of_int m * power_int 2 (ilog2 x - 52) \<and> 2 ^ 52 \<le> m \<and> m \<le> 2 ^ 53 \<and>
             \<bar>fl x - x\<bar> \<le> power_int 2 (ilog2 x - 53)"
proof -
  define e where "e = ilog2 x - 52"
  define y where "y = x / power_int 2 e"
  define m where "m = round_half_even y"
  have pe: "0 < (power_int 2 e :: rat)" by simp
  have fl: "fl x = of_int m * power_int 2 e"
    using assms by (simp add: fl_def Let_def e_def y_def m_def)
  have x: "x = y * power_int 2 e" by (simp add: y_def)
  have "power_int 2 (e + 52) \<le> x"
    using ilog2_le[OF assms] by (simp add: e_def)
  then have "power_int 2 e * 2 ^ 52 \<le> x"
    by (simp add: power_int_add)
  then have lo: "2 ^ 52 \<le> y"
    unfolding y_def using pe by (simp add: pos_le_divide_eq mult.commute)
  have "e + 53 = ilog2 x + 1" by (simp add: e_def)
  then have "x < power_int 2 (e + 53)"
    using ilog2_gt[OF assms] by (simp only:)
  then have "x < power_int 2 e * 2 ^ 53"
    by (simp add: power_int_add)
  then have hi: "y < 2 ^ 53"
    unfolding y_def using pe by (simp add: pos_divide_less_eq mult.commute)
  have ge: "y - 1 / 2 \<le> of_int m" unfolding m_def by (rule round_half_even_ge)
  have le: "of_int m \<le> y + 1 / 2" unfolding m_def by (rule round_half_even_le)
  have "(2 ^ 52 :: rat) - 1 / 2 \<le> of_int m" using lo ge by simp
  then have "(of_int (2 ^ 52 - 1) :: rat) < of_int m" by simp
  then have "2 ^ 52 - 1 < m" by (simp only: of_int_less_iff)
  then have m_lo: "2 ^ 52 \<le> m" by simp
  have "(of_int m :: rat) < 2 ^ 53 + 1 / 2" using hi le by simp
  then have "(of_int m :: rat) < of_int (2 ^ 53 + 1)" by simp
  then have "m < 2 ^ 53 + 1" by (simp only: of_int_less_iff)
  then have m_hi: "m \<le> 2 ^ 53" by simp
  have "\<bar>of_int m - y\<bar> \<le> 1 / 2" using ge le by linarith
  then have "\<bar>of_int m - y\<bar> * power_int 2 e \<le> 1 / 2 * power_int 2 e"
    using pe by (intro mult_right_mono) simp_all
  moreover have "\<bar>fl x - x\<bar> = \<bar>of_int m - y\<bar> * power_int 2 e"
  proof -
    have "fl x - x = (of_int m - y) * power_int 2 e"
      by (simp only: fl) (simp add: x algebra_simps)
    then show ?thesis using pe by (simp add: abs_mult)
  qed
  moreover have "(1 / 2 * power_int 2 e :: rat) = power_int 2 (ilog2 x - 53)"
  proof -
    have i: "ilog2 x - 53 = e - 1" by (simp add: e_def)
    have "(power_int 2 (e - 1) :: rat) * 2 = power_int 2 e"
      by (rule power_int_minus_mult) simp
    then have "(1 / 2 * power_int 2 e :: rat) = power_int 2 (e - 1)" by simp
    then show ?thesis by (simp only: i)
  qed
  ultimately have err: "\<bar>fl x - x\<bar> \<le> power_int 2 (ilog2 x - 53)" by simp
  from fl m_lo m_hi err show ?thesis unfolding e_def by blast
qed

lemma fl_zero: "fl 0 = 0"
  by (simp add: fl_def)

lemma to_unsigned_long_le:
  assumes "0 \<le> v" and "v < 1921"
  shows "to_unsigned_long v \<le> 1920"
proof -
  define f where "f = \<lfloor>v\<rfloor>"
  have f0: "0 \<le> f" using assms(1) by (simp add: f_def)
  have f1: "f < 1921" using assms(2) by (simp add: f_def floor_less_iff)
  from f0 f1 have "f mod 2 ^ 32 = f" by simp
  then have "to_unsigned_long v = nat f" by (simp only: to_unsigned_long_def f_def)
  with f1 show ?thesis by simp
qed

lemma scaled_side_le:
  assumes a: "0 < a" and r0: "0 \<le> r" and r: "r \<le> fl (1920 / a)"
  shows "to_unsigned_long (fl (a * r)) \<le> 1920"
proof (cases "a * r = 0")
  case True
  then have "fl (a * r) = 0" by (simp only: fl_zero)
  then show ?thesis by (simp add: to_unsigned_long_def)
next
  case False
  with a r0 have pos: "0 < a * r" by (simp add: zero_less_mult_iff less_le)
  have "fl (1920 / a) \<le> 1920 / a * (1 + 1 / 2 ^ 53)"
    using a by (intro fl_bounds(1)) simp
  with r have "r \<le> 1920 / a * (1 + 1 / 2 ^ 53)" by simp
  then have "a * r \<le> a * (1920 / a * (1 + 1 / 2 ^ 53))"
    using a by (simp only: mult_le_cancel_left_pos)
  also have "\<dots> = 1920 * (1 + 1 / 2 ^ 53)"
    using a by simp
  finally have ar: "a * r \<le> 1920 * (1 + 1 / 2 ^ 53)" .
  have "fl (a * r) \<le> a * r * (1 + 1 / 2 ^ 53)"
    using pos by (rule fl_bounds(1))
  also have "\<dots> \<le> 1920 * (1 + 1 / 2 ^ 53) * (1 + 1 / 2 ^ 53)"
    using ar by (simp only: mult_le_cancel_right) simp
  also have "\<dots> < 1921" by simp
  finally have "fl (a * r) < 1921" .
  moreover have "0 \<le> fl (a * r)" using fl_bounds(2)[OF pos] by simp
  ultimately show ?thesis by (rule to_unsigned_long_le[rotated])
qed

lemma ratio_lt_one:
  assumes "1921 \<le> a"
  shows "fl (1920 / a) < 1"
proof -
  have "fl (1920 / a) \<le> 1920 / a * (1 + 1 / 2 ^ 53)"
    using assms by (intro fl_bounds(1)) simp
  also have "\<dots> = 1920 * (1 + 1 / 2 ^ 53) / a"
    by simp
  also have "\<dots> < 1"
    using assms by (simp add: pos_divide_less_eq)
  finally show ?thesis .
qed

text \<open>
  The size computation of lines 93 to 103, taken by itself: for a width or a height
  above 1920 the two sides are multiplied by one and the same ratio (a number between
  0 and 1), rounded as doubles and truncated to integers, and neither result is
  larger than 1920.
\<close>

lemma canvas_size_le_1920:
  assumes "1920 < width \<or> 1920 < height"
  shows "\<exists>ratio. 0 < ratio \<and> ratio < 1 \<and>
           canvas_size width height =
             (to_unsigned_long (fl (of_nat width * ratio)),
              to_unsigned_long (fl (of_nat height * ratio))) \<and>
           fst (canvas_size width height) \<le> 1920 \<and>
           snd (canvas_size width height) \<le> 1920"
proof -
  define rw where "rw = fl (1920 / of_nat width)"
  define rh where "rh = fl (1920 / of_nat height)"
  have rw: "0 < rw" if "0 < width"
    unfolding rw_def using that by (intro fl_bounds(2)) simp
  have rh: "0 < rh" if "0 < height"
    unfolding rh_def using that by (intro fl_bounds(2)) simp
  have rw1: "rw < 1" if "1920 < width"
  proof -
    from that have "1921 \<le> width" by simp
    then have "(1921 :: rat) \<le> of_nat width" by (metis of_nat_le_iff of_nat_numeral)
    then show ?thesis unfolding rw_def by (rule ratio_lt_one)
  qed
  have rh1: "rh < 1" if "1920 < height"
  proof -
    from that have "1921 \<le> height" by simp
    then have "(1921 :: rat) \<le> of_nat height" by (metis of_nat_le_iff of_nat_numeral)
    then show ?thesis unfolding rh_def by (rule ratio_lt_one)
  qed
  define ratio where
    "ratio = (if width = 0 then rh else if height = 0 then rw else min rw rh)"
  have m: "Math_min (num_div 1920 (of_nat width)) (num_div 1920 (of_nat height)) = Fin ratio"
    using assms by (auto simp: num_div_def ratio_def rw_def rh_def)
  have cs: "canvas_size width height =
      (to_unsigned_long (fl (of_nat width * ratio)), to_unsigned_long (fl (of_nat height * ratio)))"
    using assms m by (simp add: canvas_size_def Let_def)
  have pos: "0 < ratio"
    using assms rw rh by (auto simp: ratio_def)
  have lt1: "ratio < 1"
    using assms rw1 rh1 by (auto simp: ratio_def min_def)
  have w: "to_unsigned_long (fl (of_nat width * ratio)) \<le> 1920"
  proof (cases "width = 0")
    case True
    then show ?thesis by (simp add: fl_zero to_unsigned_long_def)
  next
    case False
    then have "ratio \<le> rw" by (auto simp: ratio_def)
    with False pos show ?thesis
      unfolding rw_def by (intro scaled_side_le) simp_all
  qed
  have h: "to_unsigned_long (fl (of_nat height * ratio)) \<le> 1920"
  proof (cases "height = 0")
    case True
    then show ?thesis by (simp add: fl_zero to_unsigned_long_def)
  next
    case False
    then have "ratio \<le> rh" using assms by (auto simp: ratio_def)
    with False pos show ?thesis
      unfolding rh_def by (intro scaled_side_le) simp_all
  qed
  from cs pos lt1 w h show ?thesis by auto
qed

lemma power_int_2_less_cancel:
  assumes "(power_int 2 a :: rat) < power_int 2 b"
  shows "a < b"
proof (rule ccontr)
  assume "\<not> a < b"
  then have "b \<le> a" by simp
  then have "(power_int 2 b :: rat) \<le> power_int 2 a"
    by (intro power_int_increasing) simp_all
  with assms show False by simp
qed

lemma ilog2_unique:
  assumes "power_int 2 l \<le> x" and "x < power_int 2 (l + 1)"
  shows "ilog2 x = l"
proof -
  have x: "0 < x"
    by (rule less_le_trans[OF _ assms(1)]) simp
  have "power_int 2 (ilog2 x) < (power_int 2 (l + 1) :: rat)"
    by (rule le_less_trans[OF ilog2_le[OF x] assms(2)])
  then have a: "ilog2 x < l + 1"
    by (rule power_int_2_less_cancel)
  have "(power_int 2 l :: rat) < power_int 2 (ilog2 x + 1)"
    by (rule le_less_trans[OF assms(1) ilog2_gt[OF x]])
  then have b: "l < ilog2 x + 1"
    by (rule power_int_2_less_cancel)
  from a b show ?thesis by simp
qed

lemma round_half_even_of_int: "round_half_even (of_int m) = m"
  by (simp add: round_half_even_def)

lemma fl_exact:
  assumes "2 ^ 52 \<le> m" and "m < 2 ^ 53"
  shows "fl (of_int m * power_int 2 e) = of_int m * power_int 2 e"
proof -
  define x :: rat where "x = of_int m * power_int 2 e"
  have pe: "0 < (power_int 2 e :: rat)" by simp
  have m0: "0 < m" using assms(1) by simp
  then have x0: "0 < x" unfolding x_def using pe by simp
  have "(of_int (2 ^ 52) :: rat) \<le> of_int m" using assms(1) by (simp only: of_int_le_iff)
  then have "2 ^ 52 * power_int 2 e \<le> x"
    unfolding x_def using pe by simp
  then have lo: "power_int 2 (e + 52) \<le> x"
    by (simp add: power_int_add mult.commute)
  have "(of_int m :: rat) < of_int (2 ^ 53)" using assms(2) by (simp only: of_int_less_iff)
  then have "x < 2 ^ 53 * power_int 2 e"
    unfolding x_def using pe by simp
  then have hi: "x < power_int 2 (e + 52 + 1)"
    by (simp add: power_int_add mult.commute)
  have il: "ilog2 x = e + 52" using lo hi by (rule ilog2_unique)
  have "x / power_int 2 e = of_int m" unfolding x_def by simp
  then have "fl x = x"
    using x0 by (simp add: fl_def Let_def il round_half_even_of_int) (simp add: x_def)
  then show ?thesis by (simp only: x_def)
qed

lemma fl_half: "fl (1 / 2) = 1 / 2"
  using fl_exact [of "2 ^ 52" "- 53"] by simp

lemma fl_1920: "fl 1920 = 1920"
  using fl_exact [of "1920 * 2 ^ 42" "- 42"] by simp

lemma canvas_size_3840: "canvas_size 3840 3840 = (1920, 1920)"
  by (simp add: canvas_size_def Let_def num_div_def fl_half fl_1920 to_unsigned_long_def)

subsection \<open>The compression loop\<close>

lemma compress_loop_skips_non_images:
  "compress_loop images total_o total_c =
   compress_loop (filter (\<lambda>f. startsWith (f_type f) ''image/'') images) total_o total_c"
  by (induction images arbitrary: total_o total_c) simp_all

lemma compressImages_skips_non_images:
  "compressImages images st =
   compressImages (filter (\<lambda>f. startsWith (f_type f) ''image/'') images) st"
  unfolding compressImages_def compressImages_try_def Let_def
  by (subst compress_loop_skips_non_images) (rule refl)

lemma compress_loop_result:
  "compress_loop images total_o total_c = Completes total_o total_c \<or>
   (\<exists>total_o'. compress_loop images total_o total_c = Raises new_Image total_o' total_c)"
  by (induction images arbitrary: total_o total_c) simp_all

lemma compressImages_downloads:
  "case compressImages images st of
     Inr st' \<Rightarrow> downloads st' = downloads st
   | Inl e \<Rightarrow> False"
  using compress_loop_result [of images 0 0]
  by (auto simp: compressImages_def compressImages_try_def try_catch_def Let_def)

text \<open>
  Claim C10.  Entries whose MIME type does not start with \<open>image/\<close> are skipped:
  running \<open>compressImages\<close>, or its loop from any totals, on a list gives what it
  gives on the image-typed entries of the list alone, so the other entries add
  nothing to either total.  If no entry is image-typed the loop ends with both totals
  zero.  No call triggers a download: \<open>compressImages\<close> returns with the downloads it
  started with.
\<close>

theorem non_images_are_skipped:
  "compressImages images st =
     compressImages (filter (\<lambda>f. startsWith (f_type f) ''image/'') images) st \<and>
   compress_loop images total_o total_c =
     compress_loop (filter (\<lambda>f. startsWith (f_type f) ''image/'') images) total_o total_c \<and>
   ((\<forall>f \<in> set images. \<not> startsWith (f_type f) ''image/'') \<longrightarrow>
      compress_loop images 0 0 = Completes 0 0) \<and>
   (case compressImages images st of
      Inr st' \<Rightarrow> downloads st' = downloads st
    | Inl e \<Rightarrow> False)"
proof (intro conjI impI)
  show "compressImages images st =
     compressImages (filter (\<lambda>f. startsWith (f_type f) ''image/'') images) st"
    by (rule compressImages_skips_non_images)
  show "compress_loop images total_o total_c =
     compress_loop (filter (\<lambda>f. startsWith (f_type f) ''image/'') images) total_o total_c"
    by (rule compress_loop_skips_non_images)
  show "case compressImages images st of
      Inr st' \<Rightarrow> downloads st' = downloads st
    | Inl e \<Rightarrow> False"
    by (rule compressImages_downloads)
  assume "\<forall>f \<in> set images. \<not> startsWith (f_type f) ''image/''"
  then have "filter (\<lambda>f. startsWith (f_type f) ''image/'') images = []"
    by (simp add: filter_empty_conv)
  then show "compress_loop images 0 0 = Completes 0 0"
    using compress_loop_skips_non_images [of images 0 0] by simp
qed

theorem non_images_are_skipped_witness:
  "compress_loop
     [example_item 1 ''a.txt'' ''text/plain'' [1, 2, 3], example_item 2 ''b.pdf'' ''application/pdf'' [4]]
     0 0 = Completes 0 0"
  using non_images_are_skipped [of
      "[example_item 1 ''a.txt'' ''text/plain'' [1, 2, 3], example_item 2 ''b.pdf'' ''application/pdf'' [4]]"
      initial_state 0 0]
  by (simp add: example_item_def startsWith_def)

text \<open>
  Claim C5.  The routine does not scale an image and produces no output image: for
  an image-typed entry, whatever its dimensions, \<open>new Image()\<close> throws before the
  image is loaded, the error is caught, and the call ends with the failure message
  and without a download.
\<close>

theorem image_entry_is_never_resized:
  "compressImages [example_item 1 ''photo.png'' ''image/png'' [137, 80, 78, 71]] initial_state =
     Inr (initial_state\<lparr>message := zh_compress_failed @ '': Image is not a constructor''\<rparr>) \<and>
   downloads (initial_state\<lparr>message := zh_compress_failed @ '': Image is not a constructor''\<rparr>) = []"
  by (simp add: compressImages_def compressImages_try_def try_catch_def Let_def new_Image_def
      example_item_def example_file_def startsWith_def initial_state_def)

text \<open>The same for every list that has an image-typed entry.\<close>

lemma compress_loop_raises:
  assumes "\<exists>f \<in> set images. startsWith (f_type f) ''image/''"
  shows "\<exists>total_o'. compress_loop images total_o total_c = Raises new_Image total_o' total_c"
  using assms by (induction images arbitrary: total_o total_c) auto

lemma compressImages_image_throws:
  assumes "\<exists>f \<in> set images. startsWith (f_type f) ''image/''"
  shows "compressImages images st =
           Inr (st\<lparr>loading := False, message := zh_compress_failed @ '': '' @ error_message new_Image\<rparr>)"
  using compress_loop_raises [OF assms, of 0 0]
  by (auto simp: compressImages_def compressImages_try_def try_catch_def Let_def)

section \<open>Errors of the conversion request and of the compression loop\<close>

text \<open>
  Claim C7.  No error escapes \<open>convertDocument\<close> or \<open>compressImages\<close>: both always
  return.  Every error thrown in the \<open>try\<close> block of the conversion request (a rejected
  fetch, a response that is not ok, a failed read of the response) or thrown out of
  the compression loop is caught, and the call ends with the loading flag cleared and
  the message built from the failure text and the message of the caught error.
\<close>

theorem errors_are_caught_and_shown:
  "(\<exists>st'. convertDocument fetch file targetFormat st = Inr st') \<and>
   (\<exists>st'. compressImages images st = Inr st') \<and>
   (\<forall>error. convertDocument_try fetch file targetFormat (st\<lparr>loading := True, message := []\<rparr>) = Inl error \<longrightarrow>
      convertDocument fetch file targetFormat st =
        Inr (st\<lparr>loading := False, message := zh_convert_failed @ '': '' @ error_message error\<rparr>)) \<and>
   (\<forall>error. compressImages_try images (st\<lparr>loading := True, message := []\<rparr>) = Inl error \<longrightarrow>
      compressImages images st =
        Inr (st\<lparr>loading := False, message := zh_compress_failed @ '': '' @ error_message error\<rparr>))"
  by (auto simp: convertDocument_def compressImages_def try_catch_def Let_def split: sum.split)

theorem errors_are_caught_and_shown_witness:
  "convertDocument (\<lambda>f t. Fetch_rejects (Js_error ''Failed to fetch''))
     (example_item 1 ''a.txt'' ''text/plain'' [104, 105]) ''pdf'' initial_state =
     Inr (initial_state\<lparr>message := zh_convert_failed @ '': Failed to fetch''\<rparr>) \<and>
   compressImages [example_item 2 ''b.png'' ''image/png'' [137, 80]] initial_state =
     Inr (initial_state\<lparr>message := zh_compress_failed @ '': Image is not a constructor''\<rparr>)"
proof -
  have c: "convertDocument_try (\<lambda>f t. Fetch_rejects (Js_error ''Failed to fetch''))
      (example_item 1 ''a.txt'' ''text/plain'' [104, 105]) ''pdf''
      (initial_state\<lparr>loading := True, message := []\<rparr>) = Inl (Js_error ''Failed to fetch'')"
    by (simp add: convertDocument_try_def)
  have i: "compressImages_try [example_item 2 ''b.png'' ''image/png'' [137, 80]]
      (initial_state\<lparr>loading := True, message := []\<rparr>) = Inl (Js_error ''Image is not a constructor'')"
    by (simp add: compressImages_try_def new_Image_def example_item_def startsWith_def)
  from errors_are_caught_and_shown [of "\<lambda>f t. Fetch_rejects (Js_error ''Failed to fetch'')"
      "example_item 1 ''a.txt'' ''text/plain'' [104, 105]" "''pdf''" initial_state
      "[example_item 2 ''b.png'' ''image/png'' [137, 80]]"] c i
  show ?thesis by (simp add: initial_state_def)
qed

text \<open>What \<open>convertDocument\<close> returns, by the outcome of its \<open>try\<close> block.\<close>

lemma convertDocument_message:
  "case convertDocument_try fetch file targetFormat (st\<lparr>loading := True, message := []\<rparr>) of
     Inl error \<Rightarrow>
       convertDocument fetch file targetFormat st =
         Inr (st\<lparr>loading := False, message := zh_convert_failed @ '': '' @ error_message error\<rparr>)
   | Inr st' \<Rightarrow>
       convertDocument fetch file targetFormat st = Inr (st'\<lparr>loading := False\<rparr>) \<and>
       message st' = zh_convert_ok"
  by (auto simp: convertDocument_def convertDocument_try_def try_catch_def Let_def
      split: sum.split fetch_result.split)

end
